theory Spec2Isabelle
  imports Main "HOL-Library.Sublist"
begin

section \<open>Exceptions, paths and the records of tools/ai\_dev\_tool.py\<close>

text \<open>
  The orchestrator is Python code whose every interesting step is a call to the outside
  world: \<^verbatim>\<open>subprocess.run\<close>, \<^verbatim>\<open>subprocess.Popen\<close>, \<^verbatim>\<open>time.sleep\<close>, \<^verbatim>\<open>open\<close>.
  The model makes the outcome of each such call a field of an environment record and
  makes each call an event of a trace, so that a function of the source becomes a pure
  function from the environment to its result and the list of calls it issued, in order.

  Exceptions are values. The source distinguishes \<^verbatim>\<open>subprocess.TimeoutExpired\<close> from
  every other \<^verbatim>\<open>Exception\<close>; both carry the text that \<^verbatim>\<open>str(e)\<close> gives. Every call
  inside a \<^verbatim>\<open>try\<close> that can raise an \<^verbatim>\<open>Exception\<close> has its raising branch: the spawn,
  both drains of the emulator's output (with \<^verbatim>\<open>text=True\<close> they decode it and raise
  \<^verbatim>\<open>UnicodeDecodeError\<close> on bytes that are not text), \<^verbatim>\<open>time.sleep\<close> (on a negative or
  too large argument), \<^verbatim>\<open>max\<close> (on an empty list), the commands run through
  \<^verbatim>\<open>subprocess.run\<close>, and every \<^verbatim>\<open>open\<close> for writing.

  What the model leaves out: asynchronous interrupts (\<^verbatim>\<open>KeyboardInterrupt\<close>, a
  \<^verbatim>\<open>BaseException\<close>); failures of \<^verbatim>\<open>print\<close>; and failures of the file-system probes
  \<^verbatim>\<open>exists()\<close> and \<^verbatim>\<open>stat()\<close>, which are total queries of a snapshot. Durations and
  offsets are integers, as \<^verbatim>\<open>main\<close> passes them (\<^verbatim>\<open>int(sys.argv[1])\<close>, or 10).
\<close>

datatype exn = TimeoutExpired string | Exception string

fun str_exn :: "exn \<Rightarrow> string" where
  "str_exn (TimeoutExpired m) = m"
| "str_exn (Exception m) = m"

text \<open>\<^verbatim>\<open>Path(d) / f\<close> for a relative \<open>f\<close>, and \<^verbatim>\<open>str(n)\<close> for a natural number.\<close>

definition path_join :: "string \<Rightarrow> string \<Rightarrow> string" where
  "path_join d f = d @ ''/'' @ f"

fun str_nat :: "nat \<Rightarrow> string" where
  "str_nat n =
     (if n < 10 then [''0123456789'' ! n]
      else str_nat (n div 10) @ [''0123456789'' ! (n mod 10)])"

declare str_nat.simps [simp del]

text \<open>The object \<^verbatim>\<open>self\<close> of class \<^verbatim>\<open>X16DevTool\<close>, as \<^verbatim>\<open>__init__\<close> leaves it.\<close>

record X16DevTool =
  project_dir :: string
  screenshots_dir :: string
  logs_dir :: string
  tool_session_id :: string

text \<open>The dictionary \<^verbatim>\<open>build_log\<close>; the key \<^verbatim>\<open>output\<close> is the field \<open>build_output\<close>,
  and the key \<^verbatim>\<open>return_code\<close> is absent until the build
  command has returned.\<close>

record build_log =
  build_timestamp :: string
  command :: string
  success :: bool
  build_output :: string
  errors :: string
  return_code :: "int option"

text \<open>One entry of \<^verbatim>\<open>session_data["screenshots"]\<close>; the key \<^verbatim>\<open>file\<close> is the field
  \<open>file_path\<close>.\<close>

record screenshot =
  time :: int
  file_path :: string
  step :: nat

text \<open>The dictionary \<^verbatim>\<open>session_data\<close>; the key \<^verbatim>\<open>error\<close> is absent unless the handler of
  \<^verbatim>\<open>except Exception\<close> has run.\<close>

record session_data =
  session_id :: string
  timestamp :: string
  program :: string
  duration :: int
  screenshots :: "screenshot list"
  gif_recording :: "string option"
  emulator_output :: string
  emulator_stderr :: string
  status :: string
  program_exists :: bool
  emulator_pid :: "nat option"
  error :: "string option"

text \<open>The dictionary \<^verbatim>\<open>analysis\<close>.\<close>

record analysis =
  analysis_session_id :: string
  analysis_timestamp :: string
  program_status :: string
  screenshots_captured :: nat
  issues_detected :: "string list"
  recommendations :: "string list"

section \<open>The outside world\<close>

text \<open>What \<^verbatim>\<open>json.dump\<close> is given, and the calls a function issues.\<close>

datatype json = Build_json build_log | Session_json session_data | Analysis_json analysis

datatype event =
    Run_make "string list"
  | Popen "string list"
  | Sleep int
  | Poll
  | Communicate "int option"
  | Osascript
  | Screencapture string
  | Pkill
  | Announce_gif string
  | Write_json string json

text \<open>
  The environment answers every call. \<open>fs\<close> is the file system when the function is
  entered and \<open>fs_end\<close> the file system after the emulator has been told to stop (a path
  maps to the size of its file, or to \<open>None\<close> when there is no file). \<open>screencapture\<close>,
  \<open>strftime_hms\<close> and \<open>capture_seconds\<close> are asked with the label of the capture:
  whether the utility fails, what the clock reads when it is called, and how long the
  call blocks. \<open>communicate\<close> is the drain without a timeout of line 139 and
  \<open>communicate_timeout\<close> the drain of line 178. \<open>open_w\<close> is asked with the path of the
  file to write.
\<close>

record env =
  now :: string
  fs :: "string \<Rightarrow> nat option"
  fs_end :: "string \<Rightarrow> nat option"
  run_make :: "exn + (string \<times> string \<times> int)"
  popen :: "exn + nat"
  poll :: "int option"
  communicate :: "exn + (string \<times> string)"
  screencapture :: "string \<Rightarrow> exn option"
  strftime_hms :: "string \<Rightarrow> string"
  capture_seconds :: "string \<Rightarrow> int"
  communicate_timeout :: "exn + (string \<times> string)"
  pkill :: "exn option"
  open_w :: "string \<Rightarrow> exn option"

section \<open>build\_project\<close>

definition build_log_file :: "X16DevTool \<Rightarrow> string" where
  "build_log_file self = path_join (logs_dir self) (''build_'' @ tool_session_id self @ ''.json'')"

definition initial_build_log :: "env \<Rightarrow> string \<Rightarrow> build_log" where
  "initial_build_log e game =
     \<lparr> build_timestamp = now e, command = ''make GAME='' @ game, success = False,
       build_output = [], errors = [], return_code = None \<rparr>"

text \<open>The \<^verbatim>\<open>try\<close> statement of lines 48 to 73: the build log after it.\<close>

definition run_build_command :: "env \<Rightarrow> string \<Rightarrow> build_log" where
  "run_build_command e game =
     (let build_log = initial_build_log e game in
      case run_make e of
        Inr (out, err, returncode) \<Rightarrow>
          build_log \<lparr> build_output := out, errors := err, return_code := Some returncode,
                      success := (returncode = 0) \<rparr>
      | Inl (TimeoutExpired m) \<Rightarrow> build_log \<lparr> errors := ''Build timeout after 30 seconds'' \<rparr>
      | Inl (Exception m) \<Rightarrow> build_log \<lparr> errors := m \<rparr>)"

text \<open>Lines 75 to 80: the log is written outside the \<^verbatim>\<open>try\<close>, so a failure of \<^verbatim>\<open>open\<close>
  leaves the function as an exception; otherwise the success flag is returned.\<close>

definition build_project :: "X16DevTool \<Rightarrow> env \<Rightarrow> string \<Rightarrow> (exn + bool) \<times> event list" where
  "build_project self e game =
     (let build_log = run_build_command e game;
          log_file = build_log_file self;
          calls = [Run_make [''make'', ''GAME='' @ game]]
      in case open_w e log_file of
           Some x \<Rightarrow> (Inl x, calls)
         | None \<Rightarrow> (Inr (success build_log), calls @ [Write_json log_file (Build_json build_log)]))"

section \<open>capture\_screenshot\<close>

text \<open>Lines 221 to 243. \<^verbatim>\<open>subprocess.run(..., check=True)\<close> raises when the utility fails or
  times out; every \<^verbatim>\<open>Exception\<close> is caught and turned into \<^verbatim>\<open>None\<close>.\<close>

definition capture_screenshot :: "X16DevTool \<Rightarrow> env \<Rightarrow> string \<Rightarrow> string option \<times> event list" where
  "capture_screenshot self e label =
     (let filename = ''screenshot_'' @ tool_session_id self @ ''_'' @ strftime_hms e label
                       @ (if label \<noteq> [] then ''_'' @ label else []) @ ''.png'';
          screenshot_path = path_join (screenshots_dir self) filename
      in (case screencapture e label of None \<Rightarrow> Some screenshot_path | Some x \<Rightarrow> None,
          [Screencapture screenshot_path]))"

section \<open>run\_emulator\_with\_capture\<close>

definition screenshot_times :: "int list" where
  "screenshot_times = [1, 3, 5, 8, 10]"

definition initial_session_data :: "X16DevTool \<Rightarrow> env \<Rightarrow> string \<Rightarrow> int \<Rightarrow> session_data" where
  "initial_session_data self e prog dur =
     \<lparr> session_id = tool_session_id self, timestamp = now e, program = prog, duration = dur,
       screenshots = [], gif_recording = None, emulator_output = [], emulator_stderr = [],
       status = ''unknown'', program_exists = False, emulator_pid = None, error = None \<rparr>"

definition gif_path :: "X16DevTool \<Rightarrow> string" where
  "gif_path self = path_join (screenshots_dir self) (''recording_'' @ tool_session_id self @ ''.gif'')"

definition emulator_cmd :: "X16DevTool \<Rightarrow> string \<Rightarrow> string list" where
  "emulator_cmd self prog = [''x16emu'', ''-prg'', prog, ''-run'', ''-gif'', gif_path self]"

definition session_file :: "X16DevTool \<Rightarrow> string" where
  "session_file self = path_join (logs_dir self) (''session_'' @ tool_session_id self @ ''.json'')"

text \<open>
  \<^verbatim>\<open>time.sleep(secs)\<close> for an integer argument. CPython first converts the seconds to a
  64-bit count of nanoseconds and raises \<^verbatim>\<open>OverflowError\<close> when they do not fit, that is
  beyond \<open>sleep_max\<close> seconds in either direction; then it raises \<^verbatim>\<open>ValueError\<close> on a
  negative argument; otherwise it sleeps.
\<close>

definition sleep_max :: int where
  "sleep_max = 9223372036"

definition py_sleep :: "int \<Rightarrow> exn + event list" where
  "py_sleep secs =
     (if secs < - sleep_max \<or> sleep_max < secs then
        Inl (Exception ''timestamp too large to convert to C _PyTime_t'')
      else if secs < 0 then Inl (Exception ''sleep length must be non-negative'')
      else Inr [Sleep secs])"

text \<open>The offset subtracted at position \<open>i\<close> of the schedule, line 162:
  \<^verbatim>\<open>screenshot_times[i-1] if i > 0 else 0\<close>.\<close>

definition previous_offset :: "int list \<Rightarrow> nat \<Rightarrow> int" where
  "previous_offset sched i = (if i > 0 then sched ! (i - 1) else 0)"

text \<open>The label of the capture at position \<open>i\<close>, line 163: \<^verbatim>\<open>f"step_{i+1}"\<close>.\<close>

definition step_label :: "nat \<Rightarrow> string" where
  "step_label i = ''step_'' @ str_nat (i + 1)"

text \<open>
  Lines 160 to 169, the loop \<^verbatim>\<open>for i, capture_time in enumerate(screenshot_times)\<close>, over
  the entries of the enumeration still to visit. The schedule is a parameter, so that a
  statement can speak of every schedule; the source's own is \<open>screenshot_times\<close>.
  An exception of \<^verbatim>\<open>time.sleep\<close> ends the loop.
  The index \<open>i - 1\<close> is read only when \<open>0 < i\<close>, and \<open>i\<close> is an index of the schedule.
\<close>

fun capture_loop ::
  "X16DevTool \<Rightarrow> env \<Rightarrow> int list \<Rightarrow> int \<Rightarrow> (nat \<times> int) list \<Rightarrow> session_data
     \<Rightarrow> exn option \<times> session_data \<times> event list" where
  "capture_loop self e sched dur [] sd = (None, sd, [])"
| "capture_loop self e sched dur ((i, capture_time) # rest) sd =
     (if capture_time \<le> dur then
        (case py_sleep (capture_time - previous_offset sched i) of
           Inl x \<Rightarrow> (Some x, sd, [])
         | Inr slept \<Rightarrow>
             (let (screenshot_file, calls) = capture_screenshot self e (step_label i);
                  sd' = (case screenshot_file of
                           Some f \<Rightarrow>
                             sd \<lparr> screenshots := screenshots sd @
                                    [\<lparr> time = capture_time, file_path = f, step = i + 1 \<rparr>] \<rparr>
                         | None \<Rightarrow> sd);
                  (raised, sd'', calls') = capture_loop self e sched dur rest sd'
              in (raised, sd'', slept @ calls @ calls')))
      else capture_loop self e sched dur rest sd)"

text \<open>\<^verbatim>\<open>max(screenshot_times)\<close>, which raises \<^verbatim>\<open>ValueError\<close> on an empty list.\<close>

definition py_max :: "int list \<Rightarrow> exn + int" where
  "py_max xs = (case xs of [] \<Rightarrow> Inl (Exception ''max() arg is an empty sequence'')
                | x # ys \<Rightarrow> Inr (fold max ys x))"

text \<open>Lines 171 to 174: the wait for the remaining time; \<^verbatim>\<open>max\<close> or \<^verbatim>\<open>time.sleep\<close> may
  raise.\<close>

definition wait_remaining :: "int list \<Rightarrow> int \<Rightarrow> exn + event list" where
  "wait_remaining sched dur =
     (case py_max sched of
        Inl x \<Rightarrow> Inl x
      | Inr m \<Rightarrow> (let remaining_time = dur - m
                 in if remaining_time > 0 then py_sleep remaining_time else Inr []))"

text \<open>Lines 176 to 181: \<^verbatim>\<open>communicate(timeout=2)\<close>; only its timeout is caught here.\<close>

definition get_emulator_output :: "env \<Rightarrow> session_data \<Rightarrow> exn option \<times> session_data" where
  "get_emulator_output e sd =
     (case communicate_timeout e of
        Inr (out, err) \<Rightarrow> (None, sd \<lparr> emulator_output := out \<rparr>)
      | Inl (TimeoutExpired m) \<Rightarrow>
          (None, sd \<lparr> emulator_output := ''Emulator still running (timeout)'' \<rparr>)
      | Inl (Exception m) \<Rightarrow> (Some (Exception m), sd))"

text \<open>Lines 183 to 201: \<^verbatim>\<open>pkill x16emu\<close> inside a \<^verbatim>\<open>try\<close> whose bare \<^verbatim>\<open>except\<close> sets the
  status \<^verbatim>\<open>force_killed\<close> and issues no further call.\<close>

definition kill_emulator :: "env \<Rightarrow> session_data \<Rightarrow> session_data \<times> event list" where
  "kill_emulator e sd =
     (case pkill e of
        None \<Rightarrow>
          (sd \<lparr> status := ''completed'' \<rparr>,
           Pkill # (case gif_recording sd of
                      Some g \<Rightarrow> if g \<noteq> [] \<and> fs_end e g \<noteq> None then [Announce_gif g] else []
                    | None \<Rightarrow> []))
      | Some x \<Rightarrow> (sd \<lparr> status := ''force_killed'' \<rparr>, [Pkill]))"

text \<open>Lines 148 to 201: what the \<^verbatim>\<open>try\<close> body does once the emulator is found running.
  The result says whether an exception left the body.\<close>

definition capture_and_stop ::
  "int list \<Rightarrow> X16DevTool \<Rightarrow> env \<Rightarrow> int \<Rightarrow> session_data \<Rightarrow> exn option \<times> session_data \<times> event list" where
  "capture_and_stop sched self e dur sd =
     (case capture_loop self e sched dur (enumerate 0 sched) sd of
        (Some x, sd1, calls1) \<Rightarrow> (Some x, sd1, Osascript # calls1)
      | (None, sd1, calls1) \<Rightarrow>
          (case wait_remaining sched dur of
             Inl x \<Rightarrow> (Some x, sd1, Osascript # calls1)
           | Inr calls2 \<Rightarrow>
               (case get_emulator_output e sd1 of
                  (Some x, sd2) \<Rightarrow> (Some x, sd2, Osascript # calls1 @ calls2 @ [Communicate (Some 2)])
                | (None, sd2) \<Rightarrow>
                    (let (sd3, calls3) = kill_emulator e sd2
                     in (None, sd3,
                         Osascript # calls1 @ calls2 @ [Communicate (Some 2)] @ calls3)))))"

text \<open>Lines 118 to 201, the outer \<^verbatim>\<open>try\<close> body: it raises, returns from the function
  (the emulator exited within the five seconds after the spawn and its output was
  drained), or runs to its end. The drain of line 139 stands inside the \<^verbatim>\<open>try\<close>: when it
  raises, the handler runs.\<close>

datatype flow = Raised exn | Returned | Fell_through

definition try_body ::
  "int list \<Rightarrow> X16DevTool \<Rightarrow> env \<Rightarrow> string \<Rightarrow> int \<Rightarrow> session_data \<Rightarrow> flow \<times> session_data \<times> event list" where
  "try_body sched self e prog dur sd =
     (case popen e of
        Inl x \<Rightarrow> (Raised x, sd, [Popen (emulator_cmd self prog)])
      | Inr pid \<Rightarrow>
          (let sd1 = sd \<lparr> emulator_pid := Some pid \<rparr>;
               started = [Popen (emulator_cmd self prog), Sleep 5, Poll]
           in case poll e of
                Some returncode \<Rightarrow>
                  (case communicate e of
                     Inl x \<Rightarrow> (Raised x, sd1, started @ [Communicate None])
                   | Inr (stdout, stderr) \<Rightarrow>
                       (Returned,
                        sd1 \<lparr> emulator_output := stdout, emulator_stderr := stderr,
                              status := ''emulator_exited_early'' \<rparr>,
                        started @ [Communicate None]))
              | None \<Rightarrow>
                  (case capture_and_stop sched self e dur sd1 of
                     (Some x, sd2, calls) \<Rightarrow> (Raised x, sd2, started @ calls)
                   | (None, sd2, calls) \<Rightarrow> (Fell_through, sd2, started @ calls))))"

text \<open>Lines 203 to 212, the handler of \<^verbatim>\<open>except Exception as e\<close>: the outcome of its
  \<^verbatim>\<open>pkill\<close> is ignored.\<close>

definition handle_exception :: "exn \<Rightarrow> session_data \<Rightarrow> session_data \<times> event list" where
  "handle_exception x sd = (sd \<lparr> status := ''error'', error := Some (str_exn x) \<rparr>, [Pkill])"

text \<open>Lines 214 to 219: the session is written, outside every \<^verbatim>\<open>try\<close>, and returned.\<close>

definition save_session ::
  "X16DevTool \<Rightarrow> env \<Rightarrow> session_data \<Rightarrow> event list \<Rightarrow> (exn + session_data) \<times> event list" where
  "save_session self e sd calls =
     (case open_w e (session_file self) of
        Some x \<Rightarrow> (Inl x, calls)
      | None \<Rightarrow> (Inr sd, calls @ [Write_json (session_file self) (Session_json sd)]))"

text \<open>The whole method, lines 82 to 219, for a given schedule, and with the source's.\<close>

definition run_emulator_with_capture_sched ::
  "int list \<Rightarrow> X16DevTool \<Rightarrow> env \<Rightarrow> string \<Rightarrow> int \<Rightarrow> (exn + session_data) \<times> event list" where
  "run_emulator_with_capture_sched sched self e prog dur =
     (let sd0 = initial_session_data self e prog dur;
          program_path = path_join (project_dir self) prog;
          sd1 = sd0 \<lparr> program_exists := (fs e program_path \<noteq> None) \<rparr>
      in if \<not> program_exists sd1 then (Inr (sd1 \<lparr> status := ''program_not_found'' \<rparr>), [])
         else
           (case try_body sched self e prog dur (sd1 \<lparr> gif_recording := Some (gif_path self) \<rparr>) of
              (Returned, sd2, calls) \<Rightarrow> (Inr sd2, calls)
            | (Fell_through, sd2, calls) \<Rightarrow> save_session self e sd2 calls
            | (Raised x, sd2, calls) \<Rightarrow>
                (let (sd3, calls') = handle_exception x sd2
                 in save_session self e sd3 (calls @ calls'))))"

definition run_emulator_with_capture ::
  "X16DevTool \<Rightarrow> env \<Rightarrow> string \<Rightarrow> int \<Rightarrow> (exn + session_data) \<times> event list" where
  "run_emulator_with_capture = run_emulator_with_capture_sched screenshot_times"

section \<open>analyze\_session\<close>

text \<open>
  \<^verbatim>\<open>str.lower()\<close> on the characters of \<open>string\<close>, read as the code points below 256: the
  letters A to Z and the upper-case letters of Latin-1 move up by 32. \<^verbatim>\<open>sub in s\<close> is
  the substring test.
\<close>

definition lower_char :: "char \<Rightarrow> char" where
  "lower_char c =
     (let n = (of_char c :: nat)
      in if (65 \<le> n \<and> n \<le> 90) \<or> (192 \<le> n \<and> n \<le> 222 \<and> n \<noteq> 215) then char_of (n + 32) else c)"

definition lower :: "string \<Rightarrow> string" where
  "lower s = map lower_char s"

fun contains :: "string \<Rightarrow> string \<Rightarrow> bool" where
  "contains sub [] = (sub = [])"
| "contains sub (c # cs) = (prefix sub (c # cs) \<or> contains sub cs)"

definition analysis_file :: "X16DevTool \<Rightarrow> string" where
  "analysis_file self = path_join (logs_dir self) (''analysis_'' @ tool_session_id self @ ''.json'')"

text \<open>Lines 273 to 281: the issues of one screenshot, by the size of its file.\<close>

definition screenshot_issues :: "env \<Rightarrow> screenshot \<Rightarrow> string list" where
  "screenshot_issues e shot =
     (case fs e (file_path shot) of
        None \<Rightarrow> []
      | Some file_size \<Rightarrow>
          if file_size < 1000 then [''Screenshot '' @ str_nat (step shot) @ '' is unusually small'']
          else if file_size > 20000000 then
            [''Screenshot '' @ str_nat (step shot) @ '' is unusually large'']
          else [])"

text \<open>Lines 249 to 281: the analysis, before it is written.\<close>

definition analyze :: "env \<Rightarrow> session_data \<Rightarrow> analysis" where
  "analyze e sd =
     (let no_shots = (length (screenshots sd) = 0);
          failed = (status sd = ''error'')
      in \<lparr> analysis_session_id = session_id sd,
           analysis_timestamp = now e,
           program_status = ''unknown'',
           screenshots_captured = length (screenshots sd),
           issues_detected =
             (if no_shots then [''No screenshots captured''] else []) @
             (if failed then
                [''Emulator error: '' @ (case error sd of Some m \<Rightarrow> m | None \<Rightarrow> ''Unknown'')]
              else []) @
             (if contains ''error'' (lower (emulator_output sd)) then [''Emulator reported errors'']
              else []) @
             concat (map (screenshot_issues e) (screenshots sd)),
           recommendations =
             (if no_shots then [''Check screencapture permissions''] else []) @
             (if failed then [''Check emulator installation and program file''] else []) \<rparr>)"

text \<open>The method, lines 245 to 299: the analysis is written (outside any \<^verbatim>\<open>try\<close>) and
  returned.\<close>

definition analyze_session :: "X16DevTool \<Rightarrow> env \<Rightarrow> session_data \<Rightarrow> (exn + analysis) \<times> event list" where
  "analyze_session self e sd =
     (case open_w e (analysis_file self) of
        Some x \<Rightarrow> (Inl x, [])
      | None \<Rightarrow> (Inr (analyze e sd), [Write_json (analysis_file self) (Analysis_json (analyze e sd))]))"

section \<open>Reading a trace, and the sleep the specification asks for\<close>

text \<open>The arguments of the \<^verbatim>\<open>time.sleep\<close> calls of a trace, in order.\<close>

fun sleeps :: "event list \<Rightarrow> int list" where
  "sleeps [] = []"
| "sleeps (Sleep d # evs) = d # sleeps evs"
| "sleeps (ev # evs) = sleeps evs"


text \<open>
  The wait after the captures as the specification words it, for comparison with the
  source: the total duration minus the last offset that was executed (the last offset
  of the schedule within the duration; 0 when there is none), clamped to be
  non-negative.
\<close>

definition spec_remaining_sleep :: "int list \<Rightarrow> int \<Rightarrow> int" where
  "spec_remaining_sleep sched dur =
     max 0 (dur - (case filter (\<lambda>t. t \<le> dur) sched of [] \<Rightarrow> 0 | t # ts \<Rightarrow> last (t # ts)))"

section \<open>A concrete tool and environment\<close>

text \<open>
  A tool as \<^verbatim>\<open>X16DevTool()\<close> builds it, and a world in which the program file exists,
  the build and the emulator start, every capture succeeds, the emulator is still
  running when its output is asked for, and \<^verbatim>\<open>pkill\<close> and every write succeed.
\<close>

definition sample_tool :: X16DevTool where
  "sample_tool = \<lparr> project_dir = ''.'', screenshots_dir = ''dev_screenshots'',
     logs_dir = ''dev_logs'', tool_session_id = ''20250101_120000'' \<rparr>"

definition sample_env :: env where
  "sample_env = \<lparr> now = ''2025-01-01T12:00:00'',
     fs = (\<lambda>p. if p = ''./pacman.prg'' then Some 2048 else None),
     fs_end = (\<lambda>p. Some 4096),
     run_make = Inr ([], [], 0),
     popen = Inr 4242,
     poll = None,
     communicate = Inr ([], []),
     screencapture = (\<lambda>l. None),
     strftime_hms = (\<lambda>l. ''120006''),
     capture_seconds = (\<lambda>l. 0),
     communicate_timeout = Inl (TimeoutExpired ''timed out after 2 seconds''),
     pkill = None,
     open_w = (\<lambda>p. None) \<rparr>"

section \<open>The capture loop, step by step\<close>

lemma py_sleep_ok: "0 \<le> secs \<Longrightarrow> secs \<le> sleep_max \<Longrightarrow> py_sleep secs = Inr [Sleep secs]"
  by (simp add: py_sleep_def sleep_max_def)

lemma py_sleep_Inr: "py_sleep secs = Inr c \<Longrightarrow> c = [Sleep secs] \<and> 0 \<le> secs \<and> secs \<le> sleep_max"
  by (auto simp: py_sleep_def sleep_max_def split: if_splits)

lemma capture_loop_skip:
  "\<not> t \<le> dur \<Longrightarrow>
   capture_loop self e sched dur ((i, t) # rest) sd = capture_loop self e sched dur rest sd"
  by simp

lemma capture_loop_raise:
  "t \<le> dur \<Longrightarrow> py_sleep (t - previous_offset sched i) = Inl x \<Longrightarrow>
   capture_loop self e sched dur ((i, t) # rest) sd = (Some x, sd, [])"
  by simp

text \<open>The session after the capture of position \<open>i\<close>.\<close>

lemma capture_loop_step:
  "t \<le> dur \<Longrightarrow> py_sleep (t - previous_offset sched i) = Inr slept \<Longrightarrow>
   capture_loop self e sched dur ((i, t) # rest) sd =
     (fst (capture_loop self e sched dur rest
             (case fst (capture_screenshot self e (step_label i)) of
                Some f \<Rightarrow> sd \<lparr> screenshots := screenshots sd @ [\<lparr> time = t, file_path = f, step = i + 1 \<rparr>] \<rparr>
              | None \<Rightarrow> sd)),
      fst (snd (capture_loop self e sched dur rest
             (case fst (capture_screenshot self e (step_label i)) of
                Some f \<Rightarrow> sd \<lparr> screenshots := screenshots sd @ [\<lparr> time = t, file_path = f, step = i + 1 \<rparr>] \<rparr>
              | None \<Rightarrow> sd))),
      slept @ snd (capture_screenshot self e (step_label i)) @
      snd (snd (capture_loop self e sched dur rest
             (case fst (capture_screenshot self e (step_label i)) of
                Some f \<Rightarrow> sd \<lparr> screenshots := screenshots sd @ [\<lparr> time = t, file_path = f, step = i + 1 \<rparr>] \<rparr>
              | None \<Rightarrow> sd))))"
  by (simp add: Let_def split_def)

text \<open>The screenshots the loop appends are taken from the entries it visits, in order,
  each with the step \<open>i + 1\<close> and the offset of its entry.\<close>

lemma capture_loop_subseq:
  "\<exists>shots. fst (snd (capture_loop self e sched dur xs sd)) = sd \<lparr> screenshots := screenshots sd @ shots \<rparr> \<and>
           subseq (map (\<lambda>s. (step s, time s)) shots) (map (\<lambda>(i, t). (i + 1, t)) xs) \<and>
           (\<forall>s \<in> set shots. time s \<le> dur)"
proof (induction xs arbitrary: sd)
  case Nil
  show ?case by (rule exI [of _ "[]"]) simp
next
  case (Cons x xs)
  obtain i t where x: "x = (i, t)" by (cases x)
  show ?case
  proof (cases "t \<le> dur")
    case False
    from Cons.IH [of sd] obtain shots where
      "fst (snd (capture_loop self e sched dur xs sd)) = sd \<lparr> screenshots := screenshots sd @ shots \<rparr>"
      "subseq (map (\<lambda>s. (step s, time s)) shots) (map (\<lambda>(i, t). (i + 1, t)) xs)"
      "\<forall>s \<in> set shots. time s \<le> dur"
      by blast
    then show ?thesis
      unfolding x capture_loop_skip [OF False]
      by (intro exI [of _ shots]) (simp add: list_emb_Cons)
  next
    case True
    show ?thesis
    proof (cases "py_sleep (t - previous_offset sched i)")
      case (Inl err)
      show ?thesis
        unfolding x capture_loop_raise [OF True Inl]
        by (intro exI [of _ "[]"]) simp
    next
      case (Inr slept)
      show ?thesis
      proof (cases "fst (capture_screenshot self e (step_label i))")
        case None
        from Cons.IH [of sd] obtain shots where
          "fst (snd (capture_loop self e sched dur xs sd)) = sd \<lparr> screenshots := screenshots sd @ shots \<rparr>"
          "subseq (map (\<lambda>s. (step s, time s)) shots) (map (\<lambda>(i, t). (i + 1, t)) xs)"
          "\<forall>s \<in> set shots. time s \<le> dur"
          by blast
        then show ?thesis
          unfolding x capture_loop_step [OF True Inr] None
          by (intro exI [of _ shots]) (simp add: list_emb_Cons)
      next
        case (Some f)
        let ?s = "\<lparr> time = t, file_path = f, step = i + 1 \<rparr>"
        let ?sd = "sd \<lparr> screenshots := screenshots sd @ [?s] \<rparr>"
        from Cons.IH [of ?sd] obtain shots where
          "fst (snd (capture_loop self e sched dur xs ?sd)) = ?sd \<lparr> screenshots := screenshots ?sd @ shots \<rparr>"
          "subseq (map (\<lambda>s. (step s, time s)) shots) (map (\<lambda>(i, t). (i + 1, t)) xs)"
          "\<forall>s \<in> set shots. time s \<le> dur"
          by blast
        then show ?thesis
          unfolding x capture_loop_step [OF True Inr] Some
          using True by (intro exI [of _ "?s # shots"]) simp
      qed
    qed
  qed
qed

lemma capture_loop_appends:
  "\<exists>shots. fst (snd (capture_loop self e sched dur xs sd)) = sd \<lparr> screenshots := screenshots sd @ shots \<rparr>"
  using capture_loop_subseq [of self e sched dur xs sd] by blast

lemma capture_loop_status:
  "capture_loop self e sched dur xs sd = (r, sd', calls) \<Longrightarrow> status sd' = status sd"
  using capture_loop_appends [of self e sched dur xs sd] by auto

text \<open>The loop only sleeps and captures.\<close>

lemma capture_loop_calls:
  "ev \<in> set (snd (snd (capture_loop self e sched dur xs sd)))
     \<Longrightarrow> (\<exists>d. ev = Sleep d) \<or> (\<exists>p. ev = Screencapture p)"
proof (induction xs arbitrary: sd)
  case Nil
  then show ?case by simp
next
  case (Cons x xs)
  obtain i t where x: "x = (i, t)" by (cases x)
  from Cons.prems show ?case
    by (auto simp: x Let_def split_def capture_screenshot_def
          split: if_splits sum.splits dest: Cons.IH py_sleep_Inr)
qed

lemma capture_loop_no_pkill:
  "capture_loop self e sched dur xs sd = (r, sd', calls) \<Longrightarrow> count_list calls Pkill = 0"
  using capture_loop_calls [of Pkill self e sched dur xs sd] by (auto simp: count_list_0_iff)

lemma capture_loop_no_write:
  "capture_loop self e sched dur xs sd = (r, sd', calls) \<Longrightarrow> Write_json f j \<notin> set calls"
  using capture_loop_calls [of "Write_json f j" self e sched dur xs sd] by auto

section \<open>What the phases of run\_emulator\_with\_capture do to the session and the trace\<close>

lemma wait_remaining_calls:
  "wait_remaining sched dur = Inr calls \<Longrightarrow> count_list calls Pkill = 0 \<and> Write_json f j \<notin> set calls"
  by (auto simp: wait_remaining_def Let_def split: sum.splits if_splits dest: py_sleep_Inr)

lemma kill_emulator_calls:
  "kill_emulator e sd = (sd', calls) \<Longrightarrow> count_list calls Pkill = 1 \<and> Write_json f j \<notin> set calls"
  by (auto simp: kill_emulator_def split: option.splits if_splits)

lemma capture_and_stop_calls:
  assumes "capture_and_stop sched self e dur sd = (r, sd', calls)"
  shows "count_list calls Pkill = (case r of None \<Rightarrow> 1 | Some x \<Rightarrow> 0) \<and> Write_json f j \<notin> set calls"
proof -
  obtain r1 sd1 calls1 where l: "capture_loop self e sched dur (enumerate 0 sched) sd = (r1, sd1, calls1)"
    by (metis prod_cases3)
  note a = capture_loop_no_pkill [OF l] capture_loop_no_write [OF l, of f j]
  show ?thesis
  proof (cases r1)
    case (Some x)
    then show ?thesis using assms l a by (auto simp: capture_and_stop_def)
  next
    case None
    note r1 = this
    show ?thesis
    proof (cases "wait_remaining sched dur")
      case (Inl x)
      then show ?thesis using assms l a r1 by (auto simp: capture_and_stop_def)
    next
      case (Inr calls2)
      note b = wait_remaining_calls [OF Inr, of f j]
      obtain r3 sd2 where g: "get_emulator_output e sd1 = (r3, sd2)" by (cases "get_emulator_output e sd1")
      obtain sd3 calls3 where k: "kill_emulator e sd2 = (sd3, calls3)" by (cases "kill_emulator e sd2")
      note c = kill_emulator_calls [OF k, of f j]
      show ?thesis using assms l a r1 Inr b g k c
        by (cases r3) (auto simp: capture_and_stop_def)
    qed
  qed
qed

lemma capture_and_stop_status:
  assumes "capture_and_stop sched self e dur sd = (None, sd', calls)"
  shows "status sd' = ''completed'' \<or> status sd' = ''force_killed''"
  using assms
  by (auto simp: capture_and_stop_def get_emulator_output_def kill_emulator_def Let_def
      split: prod.splits option.splits sum.splits exn.splits if_splits)

lemma try_body_status:
  assumes "try_body sched self e prog dur sd = (fl, sd', calls)"
  shows "(fl = Returned \<longrightarrow> status sd' = ''emulator_exited_early'') \<and>
         (fl = Fell_through \<longrightarrow> status sd' = ''completed'' \<or> status sd' = ''force_killed'')"
  using assms
  by (auto simp: try_body_def Let_def dest: capture_and_stop_status
      split: prod.splits option.splits sum.splits)

lemma try_body_calls:
  assumes "try_body sched self e prog dur sd = (fl, sd', calls)"
  shows "count_list calls Pkill = (if fl = Fell_through then 1 else 0) \<and> Write_json f j \<notin> set calls"
proof (cases "popen e")
  case (Inl x)
  then show ?thesis using assms by (auto simp: try_body_def)
next
  case (Inr pid)
  show ?thesis
  proof (cases "poll e")
    case (Some rc)
    then show ?thesis using assms Inr
      by (auto simp: try_body_def Let_def split: sum.splits prod.splits)
  next
    case None
    obtain r sd2 calls2 where c: "capture_and_stop sched self e dur (sd \<lparr> emulator_pid := Some pid \<rparr>) = (r, sd2, calls2)"
      by (metis prod_cases3)
    note a = capture_and_stop_calls [OF c, of f j]
    show ?thesis using assms Inr None c a by (cases r) (auto simp: try_body_def Let_def)
  qed
qed

text \<open>The body returns from the function exactly when the emulator was spawned, the
  probe found it exited and the drain of its output returned.\<close>

lemma try_body_flow:
  assumes "try_body sched self e prog dur sd = (fl, sd', calls)"
  shows "(fl = Returned) = (\<exists>pid rc out. popen e = Inr pid \<and> poll e = Some rc \<and> communicate e = Inr out)"
  using assms
  by (auto simp: try_body_def Let_def split: sum.splits option.splits prod.splits)

section \<open>build\_project: which failures are encoded in the record\<close>

text \<open>
  C9, as stated: build never raises past its boundary. It does when the log file cannot
  be written: \<^verbatim>\<open>open\<close> stands after the \<^verbatim>\<open>try\<close> statement, so its exception leaves
  \<open>build_project\<close>, and no record has been written.
\<close>

theorem build_project_raises_counterexample:
  "build_project sample_tool
     (sample_env \<lparr> open_w := (\<lambda>p. Some (Exception ''[Errno 28] No space left on device'')) \<rparr>)
     ''pacman''
   = (Inl (Exception ''[Errno 28] No space left on device''), [Run_make [''make'', ''GAME=pacman'']])"
  by (simp add: build_project_def sample_env_def Let_def)

text \<open>
  C9, amended: the only exception that leaves \<open>build_project\<close> is a failure to write the
  log file. Whenever that write succeeds, the function returns the success flag of the
  record it has written to \<^verbatim>\<open>build_<session id>.json\<close>, and the record encodes the
  outcome of the build command: on a timeout, success is false, the errors field holds
  the explanatory text and there is no return code; on any other exception, success is
  false, the errors field holds the exception's message and there is no return code;
  when the command returns, its output, errors and return code are recorded and success
  says whether the return code is zero.
\<close>

theorem build_project_encodes_failures:
  "(\<forall>x. fst (build_project self e game) = Inl x \<longleftrightarrow> open_w e (build_log_file self) = Some x) \<and>
   (open_w e (build_log_file self) = None \<longrightarrow>
      (\<exists>bl. build_project self e game =
              (Inr (success bl),
               [Run_make [''make'', ''GAME='' @ game], Write_json (build_log_file self) (Build_json bl)]) \<and>
            (\<forall>m. run_make e = Inl (TimeoutExpired m) \<longrightarrow>
               \<not> success bl \<and> errors bl = ''Build timeout after 30 seconds'' \<and> return_code bl = None) \<and>
            (\<forall>m. run_make e = Inl (Exception m) \<longrightarrow>
               \<not> success bl \<and> errors bl = m \<and> return_code bl = None) \<and>
            (\<forall>out err rc. run_make e = Inr (out, err, rc) \<longrightarrow>
               success bl = (rc = 0) \<and> build_output bl = out \<and> errors bl = err \<and>
               return_code bl = Some rc)))"
proof (intro conjI allI impI)
  fix x
  show "fst (build_project self e game) = Inl x \<longleftrightarrow> open_w e (build_log_file self) = Some x"
    by (auto simp: build_project_def Let_def split: option.splits)
next
  assume w: "open_w e (build_log_file self) = None"
  show "\<exists>bl. build_project self e game =
              (Inr (success bl),
               [Run_make [''make'', ''GAME='' @ game], Write_json (build_log_file self) (Build_json bl)]) \<and>
            (\<forall>m. run_make e = Inl (TimeoutExpired m) \<longrightarrow>
               \<not> success bl \<and> errors bl = ''Build timeout after 30 seconds'' \<and> return_code bl = None) \<and>
            (\<forall>m. run_make e = Inl (Exception m) \<longrightarrow>
               \<not> success bl \<and> errors bl = m \<and> return_code bl = None) \<and>
            (\<forall>out err rc. run_make e = Inr (out, err, rc) \<longrightarrow>
               success bl = (rc = 0) \<and> build_output bl = out \<and> errors bl = err \<and>
               return_code bl = Some rc)"
    by (rule exI [of _ "run_build_command e game"])
       (simp add: build_project_def Let_def w run_build_command_def initial_build_log_def)
qed

text \<open>C9, amended, at a build that times out and at a build whose command cannot be
  started, in a world where the write succeeds.\<close>

theorem build_project_encodes_failures_witness:
  "(\<exists>bl. build_project sample_tool
           (sample_env \<lparr> run_make := Inl (TimeoutExpired ''timed out after 30 seconds'') \<rparr>) ''pacman''
         = (Inr False, [Run_make [''make'', ''GAME=pacman''],
                        Write_json ''dev_logs/build_20250101_120000.json'' (Build_json bl)]) \<and>
        errors bl = ''Build timeout after 30 seconds'' \<and> return_code bl = None \<and> \<not> success bl) \<and>
   (\<exists>bl. build_project sample_tool
           (sample_env \<lparr> run_make := Inl (Exception ''[Errno 2] No such file or directory'') \<rparr>) ''pacman''
         = (Inr False, [Run_make [''make'', ''GAME=pacman''],
                        Write_json ''dev_logs/build_20250101_120000.json'' (Build_json bl)]) \<and>
        errors bl = ''[Errno 2] No such file or directory'' \<and> return_code bl = None \<and> \<not> success bl)"
proof -
  have f: "build_log_file sample_tool = ''dev_logs/build_20250101_120000.json''"
    by (simp add: build_log_file_def sample_tool_def path_join_def)
  have "\<exists>bl. build_project sample_tool (sample_env \<lparr> run_make := Inl x \<rparr>) ''pacman''
         = (Inr False, [Run_make [''make'', ''GAME=pacman''],
                        Write_json ''dev_logs/build_20250101_120000.json'' (Build_json bl)]) \<and>
        errors bl = (case x of TimeoutExpired m \<Rightarrow> ''Build timeout after 30 seconds'' | Exception m \<Rightarrow> m) \<and>
        return_code bl = None \<and> \<not> success bl" for x
  proof -
    let ?e = "sample_env \<lparr> run_make := Inl x \<rparr>"
    have w: "open_w ?e (build_log_file sample_tool) = None"
      by (simp add: sample_env_def)
    have m: "run_make ?e = Inl x"
      by (simp add: sample_env_def)
    from build_project_encodes_failures [of sample_tool ?e "''pacman''"] w
    obtain bl where bl: "build_project sample_tool ?e ''pacman'' =
                (Inr (success bl),
                 [Run_make [''make'', ''GAME='' @ ''pacman''],
                  Write_json (build_log_file sample_tool) (Build_json bl)])"
       and t: "\<forall>m. run_make ?e = Inl (TimeoutExpired m) \<longrightarrow>
                 \<not> success bl \<and> errors bl = ''Build timeout after 30 seconds'' \<and> return_code bl = None"
       and o: "\<forall>m. run_make ?e = Inl (Exception m) \<longrightarrow>
                 \<not> success bl \<and> errors bl = m \<and> return_code bl = None"
      by blast
    from t o m
    have "\<not> success bl \<and> return_code bl = None \<and>
          errors bl = (case x of TimeoutExpired m \<Rightarrow> ''Build timeout after 30 seconds'' | Exception m \<Rightarrow> m)"
      by (cases x) auto
    with bl f show ?thesis
      by (intro exI [of _ bl]) simp
  qed
  from this [of "TimeoutExpired ''timed out after 30 seconds''"]
       this [of "Exception ''[Errno 2] No such file or directory''"]
  show ?thesis by simp
qed

section \<open>The shape of a run\<close>

lemmas run_defs = run_emulator_with_capture_def run_emulator_with_capture_sched_def
  screenshot_times_def initial_session_data_def path_join_def try_body_def capture_and_stop_def
  enumerate_eq_zip capture_screenshot_def wait_remaining_def py_max_def get_emulator_output_def
  kill_emulator_def save_session_def handle_exception_def gif_path_def session_file_def
  emulator_cmd_def step_label_def previous_offset_def py_sleep_def sleep_max_def Let_def
  sample_tool_def sample_env_def

text \<open>Without the program file the method returns at once (line 106); otherwise what it
  does after the \<^verbatim>\<open>try\<close> body depends on how the body was left.\<close>

lemma run_program_not_found:
  "fs e (path_join (project_dir self) prog) = None \<Longrightarrow>
   run_emulator_with_capture_sched sched self e prog dur =
     (Inr ((initial_session_data self e prog dur)
             \<lparr> program_exists := False, status := ''program_not_found'' \<rparr>), [])"
  by (simp add: run_emulator_with_capture_sched_def Let_def)

lemma run_by_flow:
  assumes "fs e (path_join (project_dir self) prog) \<noteq> None"
    and "try_body sched self e prog dur
           ((initial_session_data self e prog dur)
              \<lparr> program_exists := True, gif_recording := Some (gif_path self) \<rparr>)
         = (fl, sd2, calls)"
  shows "run_emulator_with_capture_sched sched self e prog dur =
     (case fl of
        Returned \<Rightarrow> (Inr sd2, calls)
      | Fell_through \<Rightarrow> save_session self e sd2 calls
      | Raised x \<Rightarrow>
          save_session self e (sd2 \<lparr> status := ''error'', error := Some (str_exn x) \<rparr>)
            (calls @ [Pkill]))"
proof -
  from assms(1) obtain n where "fs e (path_join (project_dir self) prog) = Some n" by auto
  then show ?thesis using assms(2)
    by (simp add: run_emulator_with_capture_sched_def Let_def handle_exception_def split: flow.splits)
qed

section \<open>The status of a session\<close>

text \<open>
  C10: every session that \<open>run_emulator_with_capture\<close> returns, and every session it
  writes to the session file, has one of the five terminal statuses; the placeholder
  \<^verbatim>\<open>unknown\<close> of the initial dictionary is never seen. This holds for every schedule, so
  for the source's.
\<close>

theorem returned_and_persisted_status_terminal:
  "(fst (run_emulator_with_capture_sched sched self e prog dur) = Inr sd \<or>
    Write_json f (Session_json sd) \<in> set (snd (run_emulator_with_capture_sched sched self e prog dur)))
   \<longrightarrow> status sd \<in> {''program_not_found'', ''emulator_exited_early'', ''completed'',
                    ''force_killed'', ''error''}"
proof (cases "fs e (path_join (project_dir self) prog) = None")
  case True
  show ?thesis by (auto simp: run_program_not_found [OF True])
next
  case False
  obtain fl sd2 calls where tb: "try_body sched self e prog dur
           ((initial_session_data self e prog dur)
              \<lparr> program_exists := True, gif_recording := Some (gif_path self) \<rparr>)
         = (fl, sd2, calls)"
    by (metis prod_cases3)
  note r = run_by_flow [OF False tb]
  note st = try_body_status [OF tb]
  note nw = try_body_calls [OF tb, of f "Session_json sd"]
  show ?thesis
  proof (cases fl)
    case (Raised x)
    then show ?thesis using r nw
      by (auto simp: save_session_def split: option.splits)
  next
    case Returned
    then show ?thesis using r st nw by auto
  next
    case Fell_through
    then show ?thesis using r st nw
      by (auto simp: save_session_def split: option.splits)
  qed
qed

text \<open>C10 at the sample run: the method returns a session, and its status is terminal.\<close>

theorem returned_and_persisted_status_terminal_witness:
  "fst (run_emulator_with_capture_sched screenshot_times sample_tool sample_env ''pacman.prg'' 10)
     = Inr (projr (fst (run_emulator_with_capture_sched screenshot_times sample_tool sample_env
                          ''pacman.prg'' 10))) \<and>
   status (projr (fst (run_emulator_with_capture_sched screenshot_times sample_tool sample_env
                         ''pacman.prg'' 10)))
     \<in> {''program_not_found'', ''emulator_exited_early'', ''completed'', ''force_killed'', ''error''}"
proof -
  let ?R = "run_emulator_with_capture_sched screenshot_times sample_tool sample_env ''pacman.prg'' 10"
  have h: "fst ?R = Inr (projr (fst ?R))"
    by (simp add: run_defs)
  then show ?thesis
    using returned_and_persisted_status_terminal
      [of screenshot_times sample_tool sample_env "''pacman.prg''" 10 "projr (fst ?R)"]
    by blast
qed

section \<open>An emulator that exits within the grace delay\<close>




section \<open>Stopping the emulator\<close>

text \<open>
  C1, as stated: in every run that spawned the emulator the stop step is executed
  before the method returns. Not so when the emulator has exited within the grace
  delay and its output was drained: the spawn succeeded (the session holds the process
  id), and the method returns without any \<^verbatim>\<open>pkill\<close>.
\<close>

theorem stop_command_counterexample:
  "popen (sample_env \<lparr> poll := Some 1 \<rparr>) = Inr 4242 \<and>
   emulator_pid (projr (fst (run_emulator_with_capture sample_tool (sample_env \<lparr> poll := Some 1 \<rparr>)
                               ''pacman.prg'' 10)))
     = Some 4242 \<and>
   Pkill \<notin> set (snd (run_emulator_with_capture sample_tool (sample_env \<lparr> poll := Some 1 \<rparr>)
                        ''pacman.prg'' 10))"
  by (simp add: run_defs)

text \<open>
  C1, amended: a run issues the stop command \<^verbatim>\<open>pkill x16emu\<close> exactly once before it
  returns or fails to write the session, whenever the program file exists, with one
  exception: when the emulator was spawned, the probe found it already exited and the
  drain of its output returned, no stop command is issued (nor is one when the program
  file is missing). This covers the runs whose capture or schedule phase raises an
  \<^verbatim>\<open>Exception\<close>, and the run whose early drain raises one, for every schedule.
\<close>

theorem stop_command_count:
  "count_list (snd (run_emulator_with_capture_sched sched self e prog dur)) Pkill =
     (if fs e (path_join (project_dir self) prog) \<noteq> None \<and>
         \<not> (\<exists>pid rc out. popen e = Inr pid \<and> poll e = Some rc \<and> communicate e = Inr out)
      then 1 else 0)"
proof (cases "fs e (path_join (project_dir self) prog) = None")
  case True
  show ?thesis by (simp add: run_program_not_found [OF True] True)
next
  case False
  obtain fl sd2 calls where tb: "try_body sched self e prog dur
           ((initial_session_data self e prog dur)
              \<lparr> program_exists := True, gif_recording := Some (gif_path self) \<rparr>)
         = (fl, sd2, calls)"
    by (metis prod_cases3)
  note r = run_by_flow [OF False tb]
  note c = try_body_calls [OF tb, THEN conjunct1]
  note f = try_body_flow [OF tb]
  show ?thesis
  proof (cases fl)
    case (Raised x)
    then show ?thesis using r c f False
      by (auto simp: save_session_def split: option.splits)
  next
    case Returned
    then show ?thesis using r c f False by auto
  next
    case Fell_through
    then show ?thesis using r c f False
      by (auto simp: save_session_def split: option.splits)
  qed
qed

text \<open>
  C1, amended, at three runs: a schedule whose third sleep is negative, so that
  \<^verbatim>\<open>time.sleep\<close> raises in the capture loop (status \<^verbatim>\<open>error\<close>, one stop command); an
  emulator that exited early and whose drain raises (one stop command); and an
  emulator that exited early and whose output was drained (no stop command).
\<close>

theorem stop_command_count_witness:
  "status (projr (fst (run_emulator_with_capture_sched [5, 20, 3] sample_tool sample_env
                         ''pacman.prg'' 10))) = ''error'' \<and>
   count_list (snd (run_emulator_with_capture_sched [5, 20, 3] sample_tool sample_env
                      ''pacman.prg'' 10)) Pkill = 1 \<and>
   count_list (snd (run_emulator_with_capture_sched screenshot_times sample_tool
                      (sample_env \<lparr> poll := Some 1, communicate := Inl (Exception ''invalid start byte'') \<rparr>)
                      ''pacman.prg'' 10)) Pkill = 1 \<and>
   count_list (snd (run_emulator_with_capture_sched screenshot_times sample_tool
                      (sample_env \<lparr> poll := Some 1 \<rparr>) ''pacman.prg'' 10)) Pkill = 0"
proof -
  let ?e1 = "sample_env \<lparr> poll := Some 1, communicate := Inl (Exception ''invalid start byte'') \<rparr>"
  let ?e2 = "sample_env \<lparr> poll := Some 1 \<rparr>"
  have a: "fs sample_env (path_join (project_dir sample_tool) ''pacman.prg'') \<noteq> None"
    "fs ?e1 (path_join (project_dir sample_tool) ''pacman.prg'') \<noteq> None"
    "fs ?e2 (path_join (project_dir sample_tool) ''pacman.prg'') \<noteq> None"
    by (simp_all add: sample_env_def sample_tool_def path_join_def)
  have b: "\<not> (\<exists>pid rc out. popen sample_env = Inr pid \<and> poll sample_env = Some rc \<and>
                  communicate sample_env = Inr out)"
    "\<not> (\<exists>pid rc out. popen ?e1 = Inr pid \<and> poll ?e1 = Some rc \<and> communicate ?e1 = Inr out)"
    "\<exists>pid rc out. popen ?e2 = Inr pid \<and> poll ?e2 = Some rc \<and> communicate ?e2 = Inr out"
    by (simp_all add: sample_env_def)
  have c: "status (projr (fst (run_emulator_with_capture_sched [5, 20, 3] sample_tool sample_env
                                 ''pacman.prg'' 10))) = ''error''"
    by (simp add: run_defs)
  show ?thesis
    using stop_command_count [of "[5, 20, 3]" sample_tool sample_env "''pacman.prg''" 10]
      stop_command_count [of screenshot_times sample_tool ?e1 "''pacman.prg''" 10]
      stop_command_count [of screenshot_times sample_tool ?e2 "''pacman.prg''" 10]
      a b c
    by simp
qed

text \<open>When \<^verbatim>\<open>pkill\<close> itself fails, the status becomes \<^verbatim>\<open>force_killed\<close> and the only call
  that follows is the write of the session: nothing kills the emulator.\<close>

lemma failed_stop_is_not_followed_up:
  "status (projr (fst (run_emulator_with_capture sample_tool
                         (sample_env \<lparr> pkill := Some (TimeoutExpired ''timed out after 5 seconds'') \<rparr>)
                         ''pacman.prg'' 10))) = ''force_killed'' \<and>
   dropWhile (\<lambda>ev. ev \<noteq> Pkill)
     (snd (run_emulator_with_capture sample_tool
             (sample_env \<lparr> pkill := Some (TimeoutExpired ''timed out after 5 seconds'') \<rparr>)
             ''pacman.prg'' 10)) =
   [Pkill,
    Write_json (session_file sample_tool)
      (Session_json (projr (fst (run_emulator_with_capture sample_tool
         (sample_env \<lparr> pkill := Some (TimeoutExpired ''timed out after 5 seconds'') \<rparr>)
         ''pacman.prg'' 10))))]"
  by (simp add: run_defs)

section \<open>Persisting the session\<close>

text \<open>
  C2 says that the session is written on every outcome path. The two early returns
  (lines 106 and 146) leave the method before the write of lines 214 to 217: with the
  program file missing no call is issued at all, and with an emulator that exited early
  the trace ends with the drain. The run that reaches the end of the method does end
  with the write of the session it returns.
\<close>

theorem early_returns_skip_session_write:
  "run_emulator_with_capture sample_tool (sample_env \<lparr> fs := (\<lambda>p. None) \<rparr>) ''pacman.prg'' 10 =
     (Inr ((initial_session_data sample_tool (sample_env \<lparr> fs := (\<lambda>p. None) \<rparr>) ''pacman.prg'' 10)
             \<lparr> status := ''program_not_found'' \<rparr>), []) \<and>
   snd (run_emulator_with_capture sample_tool (sample_env \<lparr> poll := Some 1 \<rparr>) ''pacman.prg'' 10) =
     [Popen (emulator_cmd sample_tool ''pacman.prg''), Sleep 5, Poll, Communicate None] \<and>
   status (projr (fst (run_emulator_with_capture sample_tool (sample_env \<lparr> poll := Some 1 \<rparr>)
                         ''pacman.prg'' 10)))
     = ''emulator_exited_early'' \<and>
   last (snd (run_emulator_with_capture sample_tool sample_env ''pacman.prg'' 10)) =
     Write_json (session_file sample_tool)
       (Session_json (projr (fst (run_emulator_with_capture sample_tool sample_env ''pacman.prg'' 10))))"
  by (simp add: run_defs)

section \<open>The analysis of the emulator's output\<close>

lemma screenshot_issues_not_reported:
  "''Emulator reported errors'' \<notin> set (concat (map (screenshot_issues e) shots))"
  by (induction shots) (auto simp: screenshot_issues_def split: option.splits)

text \<open>
  C7, as stated: an \<^verbatim>\<open>error\<close> in the captured stdout or stderr is reported. The analysis
  reads \<^verbatim>\<open>emulator_output\<close> only: the session of an emulator that exited early with
  \<^verbatim>\<open>Error: ROM not found\<close> on stderr (and nothing on stdout) is analysed without the
  issue.
\<close>

theorem stderr_error_counterexample:
  "contains ''error''
     (lower (emulator_stderr (projr (fst (run_emulator_with_capture sample_tool
        (sample_env \<lparr> poll := Some 1, communicate := Inr ([], ''Error: ROM not found'') \<rparr>)
        ''pacman.prg'' 10))))) \<and>
   ''Emulator reported errors'' \<notin> set (issues_detected (projr (fst (analyze_session sample_tool sample_env
      (projr (fst (run_emulator_with_capture sample_tool
        (sample_env \<lparr> poll := Some 1, communicate := Inr ([], ''Error: ROM not found'') \<rparr>)
        ''pacman.prg'' 10)))))))"
  by code_simp

text \<open>
  C7, amended: whenever \<open>analyze_session\<close> returns an analysis, its issue list contains
  \<^verbatim>\<open>Emulator reported errors\<close> exactly when the captured stdout text (the session's
  \<^verbatim>\<open>emulator_output\<close>) contains \<^verbatim>\<open>error\<close> case-insensitively; the captured stderr text is
  not inspected.
\<close>

theorem stdout_error_reported:
  "fst (analyze_session self e sd) = Inr a \<longrightarrow>
     (''Emulator reported errors'' \<in> set (issues_detected a))
       = contains ''error'' (lower (emulator_output sd))"
  using screenshot_issues_not_reported [of e "screenshots sd"]
  by (auto simp: analyze_session_def analyze_def Let_def simp del: set_concat split: option.splits)

text \<open>C7, amended, at a session whose stdout holds \<^verbatim>\<open>Fatal ERROR: bad opcode\<close>.\<close>

theorem stdout_error_reported_witness:
  "fst (analyze_session sample_tool sample_env
         ((initial_session_data sample_tool sample_env ''pacman.prg'' 10)
            \<lparr> emulator_output := ''Fatal ERROR: bad opcode'', status := ''completed'' \<rparr>))
     = Inr (analyze sample_env ((initial_session_data sample_tool sample_env ''pacman.prg'' 10)
            \<lparr> emulator_output := ''Fatal ERROR: bad opcode'', status := ''completed'' \<rparr>)) \<and>
   contains ''error'' (lower ''Fatal ERROR: bad opcode'') \<and>
   ''Emulator reported errors'' \<in> set (issues_detected
      (analyze sample_env ((initial_session_data sample_tool sample_env ''pacman.prg'' 10)
            \<lparr> emulator_output := ''Fatal ERROR: bad opcode'', status := ''completed'' \<rparr>)))"
proof -
  let ?sd = "(initial_session_data sample_tool sample_env ''pacman.prg'' 10)
            \<lparr> emulator_output := ''Fatal ERROR: bad opcode'', status := ''completed'' \<rparr>"
  have h: "fst (analyze_session sample_tool sample_env ?sd) = Inr (analyze sample_env ?sd)"
    by (simp add: analyze_session_def sample_env_def)
  have c: "contains ''error'' (lower ''Fatal ERROR: bad opcode'')"
    by code_simp
  have o: "emulator_output ?sd = ''Fatal ERROR: bad opcode''" by simp
  from stdout_error_reported [of sample_tool sample_env ?sd "analyze sample_env ?sd"] h c o
  have "''Emulator reported errors'' \<in> set (issues_detected (analyze sample_env ?sd))"
    by simp
  with h c show ?thesis by blast
qed

section \<open>The reference to the emulator's recording\<close>

text \<open>
  C3 says that the session's recording reference is attached only if the recording
  file exists at the end of the run, so that a persisted session never names a
  recording that did not exist when it was written. Line 116 stores the path before
  the spawn, whatever happens afterwards, and the check of line 190 only guards a
  printed announcement. In a completed run whose emulator wrote no recording, and in a
  run whose spawn fails, the session that is written and returned names the recording
  file although there is none; \<^verbatim>\<open>run_full_diagnostic\<close> (lines 331 to 335, "Show GIF
  recording if available") reads every non-null reference as an available recording.
\<close>

theorem gif_reference_to_missing_recording:
  "fs_end (sample_env \<lparr> fs_end := (\<lambda>p. None) \<rparr>) ''dev_screenshots/recording_20250101_120000.gif'' = None \<and>
   status (projr (fst (run_emulator_with_capture sample_tool
                         (sample_env \<lparr> fs_end := (\<lambda>p. None) \<rparr>) ''pacman.prg'' 10))) = ''completed'' \<and>
   gif_recording (projr (fst (run_emulator_with_capture sample_tool
                                (sample_env \<lparr> fs_end := (\<lambda>p. None) \<rparr>) ''pacman.prg'' 10)))
     = Some ''dev_screenshots/recording_20250101_120000.gif'' \<and>
   last (snd (run_emulator_with_capture sample_tool (sample_env \<lparr> fs_end := (\<lambda>p. None) \<rparr>)
                ''pacman.prg'' 10)) =
     Write_json (session_file sample_tool)
       (Session_json (projr (fst (run_emulator_with_capture sample_tool
                                    (sample_env \<lparr> fs_end := (\<lambda>p. None) \<rparr>) ''pacman.prg'' 10)))) \<and>
   status (projr (fst (run_emulator_with_capture sample_tool
                         (sample_env \<lparr> fs_end := (\<lambda>p. None),
                            popen := Inl (Exception ''[Errno 2] No such file or directory'') \<rparr>)
                         ''pacman.prg'' 10))) = ''error'' \<and>
   gif_recording (projr (fst (run_emulator_with_capture sample_tool
                                (sample_env \<lparr> fs_end := (\<lambda>p. None),
                                   popen := Inl (Exception ''[Errno 2] No such file or directory'') \<rparr>)
                                ''pacman.prg'' 10)))
     = Some ''dev_screenshots/recording_20250101_120000.gif'' \<and>
   last (snd (run_emulator_with_capture sample_tool
                (sample_env \<lparr> fs_end := (\<lambda>p. None),
                   popen := Inl (Exception ''[Errno 2] No such file or directory'') \<rparr>)
                ''pacman.prg'' 10)) =
     Write_json (session_file sample_tool)
       (Session_json (projr (fst (run_emulator_with_capture sample_tool
                                    (sample_env \<lparr> fs_end := (\<lambda>p. None),
                                       popen := Inl (Exception ''[Errno 2] No such file or directory'') \<rparr>)
                                    ''pacman.prg'' 10))))"
  by (simp add: run_defs)

section \<open>Sleeps and screenshots of the capture loop\<close>

lemma sleeps_append: "sleeps (xs @ ys) = sleeps xs @ sleeps ys"
  by (induction xs rule: sleeps.induct) simp_all

lemma sleeps_capture_screenshot: "sleeps (snd (capture_screenshot self e l)) = []"
  by (simp add: capture_screenshot_def Let_def)

lemma capture_screenshot_result:
  "fst (capture_screenshot self e l) = None \<longleftrightarrow> screencapture e l \<noteq> None"
  by (simp add: capture_screenshot_def Let_def split: option.splits)

text \<open>When every sleep of the loop is one that \<^verbatim>\<open>time.sleep\<close> accepts, the loop raises
  nothing, its sleeps are the differences to the previous offset for the entries within
  the duration, and it leaves a screenshot for exactly the entries within the duration
  whose capture succeeds.\<close>

lemma capture_loop_exact:
  assumes "\<forall>(i, t) \<in> set xs. t \<le> dur \<longrightarrow>
             0 \<le> t - previous_offset sched i \<and> t - previous_offset sched i \<le> sleep_max"
  shows "fst (capture_loop self e sched dur xs sd) = None \<and>
         sleeps (snd (snd (capture_loop self e sched dur xs sd))) =
           map (\<lambda>(i, t). t - previous_offset sched i) (filter (\<lambda>(i, t). t \<le> dur) xs) \<and>
         map (\<lambda>s. (step s, time s)) (screenshots (fst (snd (capture_loop self e sched dur xs sd)))) =
           map (\<lambda>s. (step s, time s)) (screenshots sd) @
           map (\<lambda>(i, t). (i + 1, t))
             (filter (\<lambda>(i, t). t \<le> dur \<and> screencapture e (step_label i) = None) xs)"
  using assms
proof (induction xs arbitrary: sd)
  case Nil
  show ?case by simp
next
  case (Cons x xs)
  obtain i t where x: "x = (i, t)" by (cases x)
  from Cons.prems have rest: "\<forall>(i, t) \<in> set xs. t \<le> dur \<longrightarrow>
             0 \<le> t - previous_offset sched i \<and> t - previous_offset sched i \<le> sleep_max"
    by simp
  show ?case
  proof (cases "t \<le> dur")
    case False
    then show ?thesis using Cons.IH [OF rest, of sd] unfolding x capture_loop_skip [OF False] by simp
  next
    case True
    with Cons.prems have "0 \<le> t - previous_offset sched i" "t - previous_offset sched i \<le> sleep_max"
      by (simp_all add: x)
    then have sl: "py_sleep (t - previous_offset sched i) = Inr [Sleep (t - previous_offset sched i)]"
      by (rule py_sleep_ok)
    show ?thesis
    proof (cases "screencapture e (step_label i)")
      case None
      then obtain f where f: "fst (capture_screenshot self e (step_label i)) = Some f"
        using capture_screenshot_result [of self e "step_label i"] by auto
      show ?thesis
        unfolding x capture_loop_step [OF True sl] f
        using Cons.IH [OF rest] True None
        by (simp add: sleeps_append sleeps_capture_screenshot)
    next
      case (Some err)
      then have f: "fst (capture_screenshot self e (step_label i)) = None"
        using capture_screenshot_result [of self e "step_label i"] by auto
      show ?thesis
        unfolding x capture_loop_step [OF True sl] f
        using Cons.IH [OF rest] True Some
        by (simp add: sleeps_append sleeps_capture_screenshot)
    qed
  qed
qed

section \<open>Schedules of strictly increasing offsets\<close>

lemma subseq_sorted_wrt:
  "subseq xs ys \<Longrightarrow> sorted_wrt P ys \<Longrightarrow> sorted_wrt P xs"
proof (induction rule: list_emb.induct)
  case (list_emb_Nil ys)
  show ?case by simp
next
  case (list_emb_Cons xs ys y)
  then show ?case by simp
next
  case (list_emb_Cons2 x y xs ys)
  from list_emb_Cons2.hyps(2) have "set xs \<subseteq> set ys"
    by (auto dest: list_emb_set)
  with list_emb_Cons2 show ?case by auto
qed

text \<open>In a strictly increasing schedule of offsets between 0 and \<open>sleep_max\<close>, every
  difference to the previous offset is a sleep that \<^verbatim>\<open>time.sleep\<close> accepts.\<close>

lemma enumerate_sleeps_accepted:
  assumes "sorted_wrt (<) sched" and "\<forall>t \<in> set sched. 0 \<le> t \<and> t \<le> sleep_max"
  shows "\<forall>(i, t) \<in> set (enumerate 0 sched). t \<le> dur \<longrightarrow>
           0 \<le> t - previous_offset sched i \<and> t - previous_offset sched i \<le> sleep_max"
proof (clarify)
  fix i t
  assume "(i, t) \<in> set (enumerate 0 sched)"
  then have i: "i < length sched" and t: "t = sched ! i"
    by (auto simp: in_set_enumerate_eq)
  from i have m: "sched ! i \<in> set sched" by simp
  show "0 \<le> t - previous_offset sched i \<and> t - previous_offset sched i \<le> sleep_max"
  proof (cases "i = 0")
    case True
    then show ?thesis using assms(2) m t by (simp add: previous_offset_def)
  next
    case False
    then have lt: "sched ! (i - 1) < sched ! i"
      using sorted_wrt_nth_less [OF assms(1), of "i - 1" i] i by simp
    from i have "sched ! (i - 1) \<in> set sched" by simp
    with assms(2) have "0 \<le> sched ! (i - 1)" by blast
    moreover from assms(2) m have "sched ! i \<le> sleep_max" by blast
    ultimately show ?thesis using False t lt by (simp add: previous_offset_def)
  qed
qed

text \<open>In a strictly increasing schedule the offsets within the duration are the first
  ones, so the positions that pass the test of line 161 are consecutive.\<close>

lemma filter_enumerate_sorted:
  "sorted_wrt (<) (xs :: int list) \<Longrightarrow>
   map fst (filter (\<lambda>(i, t). t \<le> d) (enumerate k xs)) =
     [k ..< k + length (filter (\<lambda>(i, t). t \<le> d) (enumerate k xs))]"
proof (induction xs arbitrary: k)
  case Nil
  show ?case by simp
next
  case (Cons x xs)
  show ?case
  proof (cases "x \<le> d")
    case True
    from Cons.prems have "sorted_wrt (<) xs" by simp
    from Cons.IH [OF this, of "Suc k"] True show ?thesis
      by (simp add: upt_conv_Cons del: upt_Suc)
  next
    case False
    have "\<not> snd p \<le> d" if "p \<in> set (enumerate (Suc k) xs)" for p
    proof -
      from that have "snd p \<in> snd ` set (enumerate (Suc k) xs)" by (rule imageI)
      then have "snd p \<in> set (map snd (enumerate (Suc k) xs))" by (simp only: set_map)
      then have "snd p \<in> set xs" by (simp only: map_snd_enumerate)
      with Cons.prems have "x < snd p" by simp
      with False show ?thesis by simp
    qed
    then have "filter (\<lambda>(i, t). t \<le> d) (enumerate (Suc k) xs) = []"
      by (auto simp: filter_empty_conv)
    with False show ?thesis by simp
  qed
qed

section \<open>The screenshots and sleeps of a run\<close>

text \<open>The later phases leave the screenshots of the loop as they are.\<close>

lemma capture_and_stop_screenshots:
  "screenshots (fst (snd (capture_and_stop sched self e dur sd))) =
     screenshots (fst (snd (capture_loop self e sched dur (enumerate 0 sched) sd)))"
  by (simp add: capture_and_stop_def get_emulator_output_def kill_emulator_def Let_def split_def
        split: option.splits sum.splits exn.splits prod.splits)

lemma try_body_screenshots:
  assumes "try_body sched self e prog dur sd = (fl, sd', calls)"
  shows "(\<forall>pid. popen e = Inr pid \<and> poll e = None \<longrightarrow>
            screenshots sd' =
              screenshots (fst (snd (capture_loop self e sched dur (enumerate 0 sched)
                                       (sd \<lparr> emulator_pid := Some pid \<rparr>))))) \<and>
         (\<not> (\<exists>pid. popen e = Inr pid \<and> poll e = None) \<longrightarrow> screenshots sd' = screenshots sd)"
proof (cases "popen e")
  case (Inl x)
  then show ?thesis using assms by (auto simp: try_body_def)
next
  case (Inr pid)
  show ?thesis
  proof (cases "poll e")
    case (Some rc)
    then show ?thesis using assms Inr
      by (auto simp: try_body_def Let_def split: sum.splits prod.splits)
  next
    case None
    have "sd' = fst (snd (capture_and_stop sched self e dur (sd \<lparr> emulator_pid := Some pid \<rparr>)))"
      using assms Inr None by (auto simp: try_body_def Let_def split: prod.splits option.splits)
    then show ?thesis using Inr None
      by (auto simp: capture_and_stop_screenshots)
  qed
qed

text \<open>The screenshots of a returned session are those the loop has left when the
  emulator was found running, and none otherwise.\<close>

lemma run_screenshots:
  assumes "fst (run_emulator_with_capture_sched sched self e prog dur) = Inr sd"
  shows "if fs e (path_join (project_dir self) prog) \<noteq> None \<and> (\<exists>pid. popen e = Inr pid) \<and> poll e = None
         then \<exists>sd0. screenshots sd0 = [] \<and>
                screenshots sd =
                  screenshots (fst (snd (capture_loop self e sched dur (enumerate 0 sched) sd0)))
         else screenshots sd = []"
proof (cases "fs e (path_join (project_dir self) prog) = None")
  case True
  show ?thesis using assms True
    by (auto simp: run_program_not_found [OF True] initial_session_data_def)
next
  case False
  let ?sd = "(initial_session_data self e prog dur)
               \<lparr> program_exists := True, gif_recording := Some (gif_path self) \<rparr>"
  obtain fl sd2 calls where tb: "try_body sched self e prog dur ?sd = (fl, sd2, calls)"
    by (metis prod_cases3)
  have e0: "screenshots ?sd = []" by (simp add: initial_session_data_def)
  have same: "screenshots sd = screenshots sd2"
    using run_by_flow [OF False tb] assms
    by (cases fl) (auto simp: save_session_def split: option.splits)
  show ?thesis
  proof (cases "(\<exists>pid. popen e = Inr pid) \<and> poll e = None")
    case True
    then obtain pid where p: "popen e = Inr pid" "poll e = None" by blast
    with try_body_screenshots [OF tb]
    have "screenshots sd2 =
            screenshots (fst (snd (capture_loop self e sched dur (enumerate 0 sched)
                                     (?sd \<lparr> emulator_pid := Some pid \<rparr>))))"
      by blast
    moreover have "screenshots (?sd \<lparr> emulator_pid := Some pid \<rparr>) = []" using e0 by simp
    ultimately have "\<exists>sd0. screenshots sd0 = [] \<and>
                screenshots sd =
                  screenshots (fst (snd (capture_loop self e sched dur (enumerate 0 sched) sd0)))"
      using same by (intro exI [of _ "?sd \<lparr> emulator_pid := Some pid \<rparr>"]) simp
    then show ?thesis using True False by simp
  next
    case no: False
    with try_body_screenshots [OF tb] e0 have "screenshots sd2 = []" by auto
    with same no show ?thesis by auto
  qed
qed

section \<open>The step indices of the capture list\<close>

text \<open>
  C4, as stated: the step indices of the capture list are exactly 1..k. A capture that
  fails is left out while the later ones keep the index of their position: with the
  source's schedule, a duration of 10 seconds and a first capture that fails, the steps
  are 2, 3, 4, 5, which is 1..k for no k.
\<close>

theorem capture_steps_counterexample:
  "map step (screenshots (projr (fst (run_emulator_with_capture sample_tool
      (sample_env \<lparr> screencapture :=
          (\<lambda>l. if l = ''step_1'' then Some (Exception ''screencapture failed'') else None) \<rparr>)
      ''pacman.prg'' 10)))) = [2, 3, 4, 5] \<and>
   \<not> (\<exists>k. [2, 3, 4, 5] = [1 ..< Suc k])"
proof
  show "map step (screenshots (projr (fst (run_emulator_with_capture sample_tool
      (sample_env \<lparr> screencapture :=
          (\<lambda>l. if l = ''step_1'' then Some (Exception ''screencapture failed'') else None) \<rparr>)
      ''pacman.prg'' 10)))) = [2, 3, 4, 5]"
    by (simp add: run_defs str_nat.simps)
next
  show "\<not> (\<exists>k. [2, 3, 4, 5] = [1 ..< Suc k])"
  proof
    assume "\<exists>k. [2, 3, 4, 5] = [1 ..< Suc k]"
    then obtain k :: nat where k: "[2, 3, 4, 5] = [1 ..< Suc k]" ..
    show False
    proof (cases "k = 0")
      case True
      with k show False by simp
    next
      case False
      then have "[1 ..< Suc k] = 1 # [Suc 1 ..< Suc k]"
        by (simp add: upt_conv_Cons del: upt_Suc)
      with k show False by simp
    qed
  qed
qed

text \<open>
  C4, amended: in every session the method returns, for every schedule, the step
  indices of the capture list are strictly increasing, each lies between 1 and the
  length of the schedule, and a capture with step \<open>i\<close> carries the offset at position
  \<open>i\<close> of the schedule, which is within the duration. For a schedule of strictly
  increasing offsets between 0 and the longest sleep that \<^verbatim>\<open>time.sleep\<close> accepts: in a
  session that reaches the capture phase the capture list holds, in the order of the
  schedule, exactly the positions whose offset is within the duration and whose capture
  succeeded, each with its position as step index and its offset, so that a failed
  capture leaves a gap and does not end the list; and when no capture fails, the step
  indices are exactly 1..k, k being the number of captures.
\<close>

theorem capture_steps_exact:
  "fst (run_emulator_with_capture_sched sched self e prog dur) = Inr sd \<longrightarrow>
     sorted_wrt (<) (map step (screenshots sd)) \<and>
     (\<forall>s \<in> set (screenshots sd).
        1 \<le> step s \<and> step s \<le> length sched \<and> time s = sched ! (step s - 1) \<and> time s \<le> dur) \<and>
     (sorted_wrt (<) sched \<and> (\<forall>t \<in> set sched. 0 \<le> t \<and> t \<le> sleep_max) \<longrightarrow>
        (fs e (path_join (project_dir self) prog) \<noteq> None \<and> (\<exists>pid. popen e = Inr pid) \<and> poll e = None \<longrightarrow>
           map (\<lambda>s. (step s, time s)) (screenshots sd) =
             map (\<lambda>(i, t). (i + 1, t))
               (filter (\<lambda>(i, t). t \<le> dur \<and> screencapture e (step_label i) = None)
                  (enumerate 0 sched))) \<and>
        ((\<forall>l. screencapture e l = None) \<longrightarrow>
           map step (screenshots sd) = [1 ..< Suc (length (screenshots sd))]))"
proof
  assume run: "fst (run_emulator_with_capture_sched sched self e prog dur) = Inr sd"
  let ?reached = "fs e (path_join (project_dir self) prog) \<noteq> None \<and> (\<exists>pid. popen e = Inr pid) \<and> poll e = None"
  let ?A = "map (\<lambda>s. (step s, time s)) (screenshots sd)"
  let ?B = "map (\<lambda>(i, t). (i + 1, t)) (enumerate 0 sched)"
  note rs = run_screenshots [OF run]
  have sub: "subseq ?A ?B" and within: "\<forall>s \<in> set (screenshots sd). time s \<le> dur"
  proof -
    have "subseq ?A ?B \<and> (\<forall>s \<in> set (screenshots sd). time s \<le> dur)"
    proof (cases ?reached)
      case True
      with rs obtain sd0 where e0: "screenshots sd0 = []"
        and sh: "screenshots sd =
                   screenshots (fst (snd (capture_loop self e sched dur (enumerate 0 sched) sd0)))"
        by auto
      from capture_loop_subseq [of self e sched dur "enumerate 0 sched" sd0] e0 sh
      show ?thesis by auto
    next
      case False
      with rs have "screenshots sd = []" by auto
      then show ?thesis by simp
    qed
    then show "subseq ?A ?B" and "\<forall>s \<in> set (screenshots sd). time s \<le> dur" by blast+
  qed
  have fstB: "map fst ?B = [1 ..< Suc (length sched)]"
  proof -
    have "map fst ?B = map Suc (map fst (enumerate 0 sched))"
      by (simp add: split_def comp_def del: map_fst_enumerate)
    also have "\<dots> = map Suc [0 ..< 0 + length sched]"
      by (simp only: map_fst_enumerate)
    also have "\<dots> = [1 ..< Suc (length sched)]"
      by (simp add: map_Suc_upt del: upt_Suc)
    finally show ?thesis .
  qed
  have fstA: "map fst ?A = map step (screenshots sd)"
    by (simp add: comp_def)
  have "subseq (map fst ?A) (map fst ?B)"
    using sub by (rule subseq_map)
  then have "subseq (map step (screenshots sd)) [1 ..< Suc (length sched)]"
    by (simp only: fstA fstB)
  then have incr: "sorted_wrt (<) (map step (screenshots sd))"
    by (rule subseq_sorted_wrt) (rule sorted_wrt_upt)
  have pos: "1 \<le> step s \<and> step s \<le> length sched \<and> time s = sched ! (step s - 1)"
    if "s \<in> set (screenshots sd)" for s
  proof -
    from that have "(step s, time s) \<in> set ?A" by force
    with sub obtain y where "y \<in> set ?B" and "(step s, time s) = y"
      by (rule list_emb_set)
    then obtain i t where "(i, t) \<in> set (enumerate 0 sched)" and "step s = i + 1" and "time s = t"
      by auto
    then show ?thesis by (auto simp: in_set_enumerate_eq)
  qed
  have exact: "?A = map (\<lambda>(i, t). (i + 1, t))
               (filter (\<lambda>(i, t). t \<le> dur \<and> screencapture e (step_label i) = None)
                  (enumerate 0 sched))"
    if so: "sorted_wrt (<) sched" and bd: "\<forall>t \<in> set sched. 0 \<le> t \<and> t \<le> sleep_max"
      and re: ?reached
  proof -
    from rs re obtain sd0 where e0: "screenshots sd0 = []"
      and sh: "screenshots sd =
                 screenshots (fst (snd (capture_loop self e sched dur (enumerate 0 sched) sd0)))"
      by auto
    have "map (\<lambda>s. (step s, time s))
            (screenshots (fst (snd (capture_loop self e sched dur (enumerate 0 sched) sd0)))) =
          map (\<lambda>s. (step s, time s)) (screenshots sd0) @
          map (\<lambda>(i, t). (i + 1, t))
            (filter (\<lambda>(i, t). t \<le> dur \<and> screencapture e (step_label i) = None)
               (enumerate 0 sched))"
      using capture_loop_exact [OF enumerate_sleeps_accepted [OF so bd]] by blast
    with e0 sh show ?thesis by simp
  qed
  have all: "map step (screenshots sd) = [1 ..< Suc (length (screenshots sd))]"
    if so: "sorted_wrt (<) sched" and bd: "\<forall>t \<in> set sched. 0 \<le> t \<and> t \<le> sleep_max"
      and ok: "\<forall>l. screencapture e l = None"
  proof (cases ?reached)
    case False
    with rs have "screenshots sd = []" by auto
    then show ?thesis by simp
  next
    case True
    let ?F = "filter (\<lambda>(i, t). t \<le> dur) (enumerate 0 sched)"
    have "filter (\<lambda>(i, t). t \<le> dur \<and> screencapture e (step_label i) = None) (enumerate 0 sched) = ?F"
      using ok by simp
    with exact [OF so bd True] have "?A = map (\<lambda>(i, t). (i + 1, t)) ?F" by simp
    then have "map fst ?A = map fst (map (\<lambda>(i, t). (i + 1, t)) ?F)" by (rule arg_cong)
    then have "map step (screenshots sd) = map Suc (map fst ?F)"
      by (simp add: split_def comp_def)
    also have "\<dots> = map Suc [0 ..< 0 + length ?F]"
      by (simp only: filter_enumerate_sorted [OF so, of dur 0])
    also have "\<dots> = [1 ..< Suc (length ?F)]"
      by (simp add: map_Suc_upt del: upt_Suc)
    finally have m: "map step (screenshots sd) = [1 ..< Suc (length ?F)]" .
    then have "length (map step (screenshots sd)) = length [1 ..< Suc (length ?F)]"
      by (rule arg_cong)
    then have "length (screenshots sd) = length ?F" by (simp del: upt_Suc)
    with m show ?thesis by simp
  qed
  from incr pos within exact all
  show "sorted_wrt (<) (map step (screenshots sd)) \<and>
     (\<forall>s \<in> set (screenshots sd).
        1 \<le> step s \<and> step s \<le> length sched \<and> time s = sched ! (step s - 1) \<and> time s \<le> dur) \<and>
     (sorted_wrt (<) sched \<and> (\<forall>t \<in> set sched. 0 \<le> t \<and> t \<le> sleep_max) \<longrightarrow>
        (?reached \<longrightarrow>
           ?A = map (\<lambda>(i, t). (i + 1, t))
               (filter (\<lambda>(i, t). t \<le> dur \<and> screencapture e (step_label i) = None)
                  (enumerate 0 sched))) \<and>
        ((\<forall>l. screencapture e l = None) \<longrightarrow>
           map step (screenshots sd) = [1 ..< Suc (length (screenshots sd))]))"
    by blast
qed

text \<open>
  C4, amended, at the source's schedule and a duration of 10 seconds: when the second
  capture fails the list holds the positions 1, 3, 4, 5 with their offsets, and when
  all five captures succeed the steps are 1..5.
\<close>

theorem capture_steps_exact_witness:
  "sorted_wrt (<) screenshot_times \<and>
   fst (run_emulator_with_capture_sched screenshot_times sample_tool
          (sample_env \<lparr> screencapture :=
             (\<lambda>l. if l = ''step_2'' then Some (Exception ''screencapture failed'') else None) \<rparr>)
          ''pacman.prg'' 10)
     = Inr (projr (fst (run_emulator_with_capture_sched screenshot_times sample_tool
          (sample_env \<lparr> screencapture :=
             (\<lambda>l. if l = ''step_2'' then Some (Exception ''screencapture failed'') else None) \<rparr>)
          ''pacman.prg'' 10))) \<and>
   map (\<lambda>s. (step s, time s)) (screenshots (projr (fst (run_emulator_with_capture_sched
          screenshot_times sample_tool
          (sample_env \<lparr> screencapture :=
             (\<lambda>l. if l = ''step_2'' then Some (Exception ''screencapture failed'') else None) \<rparr>)
          ''pacman.prg'' 10))))
     = [(1, 1), (3, 5), (4, 8), (5, 10)] \<and>
   length (screenshots (projr (fst (run_emulator_with_capture_sched screenshot_times sample_tool
                                      sample_env ''pacman.prg'' 10)))) = 5 \<and>
   map step (screenshots (projr (fst (run_emulator_with_capture_sched screenshot_times sample_tool
                                        sample_env ''pacman.prg'' 10)))) = [1 ..< Suc 5]"
proof -
  let ?e = "sample_env \<lparr> screencapture :=
             (\<lambda>l. if l = ''step_2'' then Some (Exception ''screencapture failed'') else None) \<rparr>"
  let ?G = "run_emulator_with_capture_sched screenshot_times sample_tool ?e ''pacman.prg'' 10"
  let ?R = "run_emulator_with_capture_sched screenshot_times sample_tool sample_env ''pacman.prg'' 10"
  have g: "fst ?G = Inr (projr (fst ?G))"
    by (simp add: run_defs str_nat.simps)
  have h: "fst ?R = Inr (projr (fst ?R))"
    by (simp add: run_defs)
  have so: "sorted_wrt (<) screenshot_times" by (simp add: screenshot_times_def)
  have bd: "\<forall>t \<in> set screenshot_times. 0 \<le> t \<and> t \<le> sleep_max"
    by (simp add: screenshot_times_def sleep_max_def)
  have re: "fs ?e (path_join (project_dir sample_tool) ''pacman.prg'') \<noteq> None \<and>
            (\<exists>pid. popen ?e = Inr pid) \<and> poll ?e = None"
    by (simp add: sample_env_def sample_tool_def path_join_def)
  have ok: "\<forall>l. screencapture sample_env l = None" by (simp add: sample_env_def)
  have n: "length (screenshots (projr (fst ?R))) = 5"
    by (simp add: run_defs)
  have v: "map (\<lambda>(i, t). (i + 1, t))
             (filter (\<lambda>(i, t). t \<le> 10 \<and> screencapture ?e (step_label i) = None)
                (enumerate 0 screenshot_times)) = [(1, 1), (3, 5), (4, 8), (5, 10)]"
    by (simp add: screenshot_times_def enumerate_eq_zip step_label_def str_nat.simps sample_env_def)
  from capture_steps_exact
         [of screenshot_times sample_tool ?e "''pacman.prg''" 10 "projr (fst ?G)"] g so bd re
  have "map (\<lambda>s. (step s, time s)) (screenshots (projr (fst ?G))) =
          map (\<lambda>(i, t). (i + 1, t))
             (filter (\<lambda>(i, t). t \<le> 10 \<and> screencapture ?e (step_label i) = None)
                (enumerate 0 screenshot_times))"
    by blast
  with v have gap: "map (\<lambda>s. (step s, time s)) (screenshots (projr (fst ?G)))
                      = [(1, 1), (3, 5), (4, 8), (5, 10)]"
    by simp
  from capture_steps_exact
         [of screenshot_times sample_tool sample_env "''pacman.prg''" 10 "projr (fst ?R)"] h so bd ok
  have "map step (screenshots (projr (fst ?R))) = [1 ..< Suc (length (screenshots (projr (fst ?R))))]"
    by blast
  with n have full: "map step (screenshots (projr (fst ?R))) = [1 ..< Suc 5]" by simp
  from so g gap n full show ?thesis by blast
qed

section \<open>The sleeps of a run\<close>





section \<open>The wait for the remaining time\<close>

text \<open>
  C5 says that for every duration, also one below the largest offset of the schedule,
  the scheduler sleeps the duration minus the last executed offset after the last
  capture. Line 172 subtracts \<^verbatim>\<open>max(screenshot_times)\<close>, the largest offset of the whole
  schedule, whether or not it was executed: with a duration of 4 seconds the captures
  at offsets 1 and 3 are executed, the remaining second is not waited for, and the
  emulator is stopped 3 seconds after the grace delay.
\<close>

theorem remaining_wait_short_duration:
  "sleeps (snd (run_emulator_with_capture sample_tool sample_env ''pacman.prg'' 4)) = [5, 1, 2] \<and>
   map time (screenshots (projr (fst (run_emulator_with_capture sample_tool sample_env ''pacman.prg'' 4))))
     = [1, 3] \<and>
   wait_remaining screenshot_times 4 = Inr [] \<and>
   spec_remaining_sleep screenshot_times 4 = 1"
  by (simp add: run_defs spec_remaining_sleep_def)

end
